theory Spec2Isabelle
  imports Main "HOL-Library.Multiset"
begin

section \<open>JavaScript strings\<close>

text \<open>
  A JavaScript string is a sequence of UTF-16 code units; \<open>length\<close> counts code
  units. A code unit is kept as its numeric value.
\<close>

type_synonym code_unit = nat
type_synonym jsstring = "code_unit list"

definition js :: "string \<Rightarrow> jsstring" where
  "js s = map of_char s"

text \<open>
  The characters that \<open>String.prototype.trim\<close> strips and that the pattern
  \<open>\s\<close> matches (ECMAScript WhiteSpace and LineTerminator): TAB, LF, VT, FF, CR,
  SPACE, NBSP, U+1680, U+2000..U+200A, LS, PS, U+202F, U+205F, U+3000, BOM.
\<close>

definition isWhiteSpace :: "code_unit \<Rightarrow> bool" where
  "isWhiteSpace c \<longleftrightarrow>
     (9 \<le> c \<and> c \<le> 13) \<or> c = 32 \<or> c = 160 \<or> c = 5760 \<or>
     (8192 \<le> c \<and> c \<le> 8202) \<or> c = 8232 \<or> c = 8233 \<or> c = 8239 \<or>
     c = 8287 \<or> c = 12288 \<or> c = 65279"

definition trim :: "jsstring \<Rightarrow> jsstring" where
  "trim s = rev (dropWhile isWhiteSpace (rev (dropWhile isWhiteSpace s)))"

section \<open>imageUtils.ts\<close>

definition ALLOWED_IMAGE_TYPES :: "jsstring list" where
  "ALLOWED_IMAGE_TYPES =
     [js ''image/jpeg'', js ''image/jpg'', js ''image/png'', js ''image/gif'', js ''image/webp'']"

definition MAX_FILE_SIZE :: nat where
  "MAX_FILE_SIZE = 5 * 1024 * 1024"

definition MAX_IMAGE_WIDTH :: nat where
  "MAX_IMAGE_WIDTH = 1920"

definition MAX_IMAGE_HEIGHT :: nat where
  "MAX_IMAGE_HEIGHT = 1920"

text \<open>The two fields of a browser \<open>File\<close> that the validation reads.\<close>

record image_file =
  file_type :: jsstring
  file_size :: nat

text \<open>
  The two messages of \<open>validateImageFile\<close>: "only jpg, png, gif, webp files can be
  uploaded" and "the file is too large, at most 5MB can be uploaded".
\<close>

datatype image_error = OnlyJpgPngGifWebp | FileTooLarge

record validation =
  valid :: bool
  error :: "image_error option"

definition validateImageFile :: "image_file \<Rightarrow> validation" where
  "validateImageFile f =
     (if file_type f \<notin> set ALLOWED_IMAGE_TYPES
        then \<lparr>valid = False, error = Some OnlyJpgPngGifWebp\<rparr>
      else if file_size f > MAX_FILE_SIZE
        then \<lparr>valid = False, error = Some FileTooLarge\<rparr>
      else \<lparr>valid = True, error = None\<rparr>)"

text \<open>
  The dimension computation of \<open>resizeImage\<close> (the \<open>img.onload\<close> handler).
  \<open>None\<close>: the original file is resolved unchanged. \<open>Some (w, h)\<close>: the canvas
  is created with width \<open>w\<close> and height \<open>h\<close>. Image dimensions and maxima are
  non-negative integers. \<open>Math.round (a / b)\<close> with \<open>b > 0\<close> is taken as the exact
  \<open>(2 * a + b) div (2 * b)\<close> (round half up). The source rounds the double quotient,
  which agrees with it as long as the product \<open>a\<close> stays below \<open>2^53\<close>, as for
  every image a browser loads; beyond that the two may differ.
\<close>

definition Math_round_div :: "nat \<Rightarrow> nat \<Rightarrow> nat" where
  "Math_round_div a b = (2 * a + b) div (2 * b)"

definition resizeImage_dimensions :: "nat \<Rightarrow> nat \<Rightarrow> nat \<Rightarrow> nat \<Rightarrow> (nat \<times> nat) option" where
  "resizeImage_dimensions width height maxWidth maxHeight =
     (if width \<le> maxWidth \<and> height \<le> maxHeight then None
      else if width > height then
        (if width > maxWidth
           then Some (maxWidth, Math_round_div (height * maxWidth) width)
         else Some (width, height))
      else
        (if height > maxHeight
           then Some (Math_round_div (width * maxHeight) height, maxHeight)
         else Some (width, height)))"

section \<open>WritePage and EditPage: slug generation\<close>

text \<open>
  \<open>\w\<close> without the \<open>u\<close> and \<open>i\<close> flags is \<open>[A-Za-z0-9_]\<close>; the range
  \<open>U+AC00..U+D7A3\<close> is the block of precomposed Hangul syllables; \<open>0x2D\<close> is the
  hyphen.
\<close>

definition isWordChar :: "code_unit \<Rightarrow> bool" where
  "isWordChar c \<longleftrightarrow>
     (65 \<le> c \<and> c \<le> 90) \<or> (97 \<le> c \<and> c \<le> 122) \<or> (48 \<le> c \<and> c \<le> 57) \<or> c = 95"

definition isHangulSyllable :: "code_unit \<Rightarrow> bool" where
  "isHangulSyllable c \<longleftrightarrow> 44032 \<le> c \<and> c \<le> 55203"

definition hyphen :: code_unit where
  "hyphen = 45"

text \<open>The character class \<open>[^\w\s\<dots>-]\<close> of the first \<open>replace\<close> (the range is
  Hangul): what it matches.\<close>

definition isSpecial :: "code_unit \<Rightarrow> bool" where
  "isSpecial c \<longleftrightarrow> \<not> (isWordChar c \<or> isWhiteSpace c \<or> isHangulSyllable c \<or> c = hyphen)"

text \<open>\<open>s.replace(/[C]/g, r)\<close>: every character of the class is replaced by \<open>r\<close>.\<close>

definition replace_each :: "(code_unit \<Rightarrow> bool) \<Rightarrow> jsstring \<Rightarrow> jsstring \<Rightarrow> jsstring" where
  "replace_each p r s = concat (map (\<lambda>c. if p c then r else [c]) s)"

text \<open>\<open>s.replace(/[C]+/g, r)\<close>: scanning from the left, every maximal run of
  characters of the class is replaced by one \<open>r\<close>.\<close>

function replace_runs :: "(code_unit \<Rightarrow> bool) \<Rightarrow> jsstring \<Rightarrow> jsstring \<Rightarrow> jsstring" where
  "replace_runs p r [] = []"
| "replace_runs p r (c # cs) =
     (if p c then r @ replace_runs p r (dropWhile p cs) else c # replace_runs p r cs)"
  by pat_completeness auto
termination
  by (relation "measure (\<lambda>(p, r, s). length s)") (auto simp: less_Suc_eq_le length_dropWhile_le)

text \<open>\<open>s.substring(0, n)\<close> and \<open>s.slice(-n)\<close>.\<close>

definition substring0 :: "nat \<Rightarrow> jsstring \<Rightarrow> jsstring" where
  "substring0 n s = take n s"

definition slice_last :: "nat \<Rightarrow> jsstring \<Rightarrow> jsstring" where
  "slice_last n s = drop (length s - n) s"

text \<open>\<open>Number.prototype.toString\<close> on an integer of absolute value below
  \<open>10^21\<close>: its decimal digits, with a minus sign when negative. From \<open>10^21\<close> on
  the source prints exponent notation, which is not modelled: \<open>Date.now()\<close>, an
  integer number of milliseconds, stays far below it.\<close>

fun digits :: "nat \<Rightarrow> jsstring" where
  "digits n = (if n < 10 then [48 + n] else digits (n div 10) @ [48 + n mod 10])"

declare digits.simps [simp del]

definition toString :: "int \<Rightarrow> jsstring" where
  "toString n = (if n < 0 then hyphen # digits (nat (- n)) else digits (nat n))"

text \<open>
  \<open>generateSlug\<close>, the same function in both pages. The two inputs that the source
  reads from its environment are parameters: \<open>toLowerCase\<close>, the host's
  \<open>String.prototype.toLowerCase\<close> (Unicode case conversion), and \<open>now\<close>, the value
  of \<open>Date.now()\<close>.
\<close>

definition slugBody :: "(jsstring \<Rightarrow> jsstring) \<Rightarrow> jsstring \<Rightarrow> jsstring" where
  "slugBody toLowerCase title =
     substring0 50
       (replace_runs (\<lambda>c. c = hyphen) [hyphen]
         (replace_runs isWhiteSpace [hyphen]
           (replace_each isSpecial []
             (trim (toLowerCase title)))))"

definition generateSlug :: "(jsstring \<Rightarrow> jsstring) \<Rightarrow> int \<Rightarrow> jsstring \<Rightarrow> jsstring" where
  "generateSlug toLowerCase now title =
     slugBody toLowerCase title @ [hyphen] @ slice_last 6 (toString now)"

text \<open>Lower-casing of the ASCII letters only, for evaluating \<open>generateSlug\<close> on ASCII
  titles.\<close>

definition asciiLower :: "jsstring \<Rightarrow> jsstring" where
  "asciiLower s = map (\<lambda>c. if 65 \<le> c \<and> c \<le> 90 then c + 32 else c) s"

text \<open>
  The spec's words for the two run replacements, "replaces each whitespace run with a
  single hyphen" and "collapses consecutive hyphens", written without the pattern
  matcher: a character of the class that is followed by another one is dropped, and the
  last one of a run becomes the hyphen.
\<close>

fun spec_replace_runs :: "(code_unit \<Rightarrow> bool) \<Rightarrow> code_unit \<Rightarrow> jsstring \<Rightarrow> jsstring" where
  "spec_replace_runs p h [] = []"
| "spec_replace_runs p h (c # cs) =
     (if p c then
        (case cs of
           [] \<Rightarrow> [h]
         | d # _ \<Rightarrow> if p d then spec_replace_runs p h cs else h # spec_replace_runs p h cs)
      else c # spec_replace_runs p h cs)"

section \<open>WritePage and EditPage: handleSubmit\<close>

text \<open>\<open>s.split(',')\<close>: the pieces between the separators; an empty string gives one
  empty piece.\<close>

fun split_on :: "code_unit \<Rightarrow> jsstring \<Rightarrow> jsstring list" where
  "split_on sep [] = [[]]"
| "split_on sep (c # cs) =
     (if c = sep then [] # split_on sep cs
      else (case split_on sep cs of [] \<Rightarrow> [[c]] | piece # pieces \<Rightarrow> (c # piece) # pieces))"

definition comma :: code_unit where
  "comma = 44"

definition tagArray :: "jsstring \<Rightarrow> jsstring list" where
  "tagArray tags = take 5 (filter (\<lambda>tag. length tag > 0) (map trim (split_on comma tags)))"

text \<open>Timestamps: the backend stores them and \<open>toISOString\<close> produces them as
  ISO-8601 strings, which are never empty; they are kept as the time they denote, in
  milliseconds.\<close>

type_synonym timestamp = nat
type_synonym uuid = jsstring

record post_form =
  title :: jsstring
  content :: jsstring
  tags :: jsstring
  isPublic :: bool
  slug :: jsstring
  thumbnailUrl :: "jsstring option"

text \<open>The toasts of \<open>handleSubmit\<close> before the request: "login is required", "enter
  both the title and the content", "at most 5 tags can be entered".\<close>

datatype submit_error = LoginRequired | TitleAndContentRequired | AtMostFiveTags

datatype posts_request =
    Insert_posts (p_title: jsstring) (p_content: jsstring) (p_tags: "jsstring list")
      (p_is_public: bool) (p_slug: jsstring) (p_thumbnail_url: "jsstring option") (p_user_id: uuid)
  | Update_posts (p_title: jsstring) (p_content: jsstring) (p_tags: "jsstring list")
      (p_is_public: bool) (p_slug: jsstring) (p_thumbnail_url: "jsstring option")
      (p_updated_at: timestamp) (eq_id: "uuid option") (eq_user_id: uuid)

text \<open>\<open>handleSubmit\<close> up to the request it awaits: the toast it returns on, or the
  request. \<open>user\<close> is the signed-in user's id, if any; \<open>post_id\<close> is the
  \<open>id\<close> of the route, if any.\<close>

definition WritePage_handleSubmit :: "uuid option \<Rightarrow> post_form \<Rightarrow> submit_error + posts_request" where
  "WritePage_handleSubmit user f =
     (case user of
        None \<Rightarrow> Inl LoginRequired
      | Some uid \<Rightarrow>
          if trim (title f) = [] \<or> trim (content f) = [] then Inl TitleAndContentRequired
          else if length (tagArray (tags f)) > 5 then Inl AtMostFiveTags
          else Inr (Insert_posts (trim (title f)) (trim (content f)) (tagArray (tags f))
                      (isPublic f) (slug f) (thumbnailUrl f) uid))"

definition EditPage_handleSubmit ::
    "uuid option \<Rightarrow> uuid option \<Rightarrow> timestamp \<Rightarrow> post_form \<Rightarrow> submit_error + posts_request" where
  "EditPage_handleSubmit user post_id now f =
     (case user of
        None \<Rightarrow> Inl LoginRequired
      | Some uid \<Rightarrow>
          if trim (title f) = [] \<or> trim (content f) = [] then Inl TitleAndContentRequired
          else if length (tagArray (tags f)) > 5 then Inl AtMostFiveTags
          else Inr (Update_posts (trim (title f)) (trim (content f)) (tagArray (tags f))
                      (isPublic f) (slug f) (thumbnailUrl f) now post_id uid))"

section \<open>Effects of the event handlers\<close>

text \<open>
  An event handler is modelled as a function from the component's state to the new state
  and the list of effects it issues, in order: error toasts, navigation, timers and
  requests to the backend client. A handler that awaits a request is split at the
  \<open>await\<close>: the handler itself runs up to the request; for the like handlers and
  \<open>fetchPosts\<close> the part that runs when the request has settled, with or without an
  error, is given as well, under the name \<open>_settled\<close>.

  The toasts, by their meaning: "login is required", "enter the comment", "enter the
  reply", "a comment has at most 1000 characters", "a reply has at most 1000 characters",
  "failed to process the like".
\<close>

datatype toast =
    Login_required
  | Enter_comment
  | Enter_reply
  | Comment_max_1000
  | Reply_max_1000
  | Like_failed

datatype request =
    Insert_post_comments (r_post_id: uuid) (r_user_id: uuid) (r_content: jsstring)
      (r_parent_id: "uuid option")
  | Update_post_comments_content (r_content: jsstring) (r_updated_at: timestamp)
      (where_id: uuid) (where_user_id: "uuid option")
  | Update_post_comments_deleted_at (r_deleted_at: timestamp)
      (where_id: uuid) (where_user_id: "uuid option")
  | Delete_comment_likes (where_comment_id: uuid) (where_like_user_id: uuid)
  | Insert_comment_likes (r_comment_id: uuid) (r_like_user_id: uuid)
  | Delete_post_likes (where_post_id: "uuid option") (where_like_user_id: uuid)
  | Insert_post_likes (r_like_post_id: "uuid option") (r_like_user_id: uuid)

datatype effect =
    Toast_error toast
  | Navigate_login
  | Clear_heartAnimation_after_600ms
  | Backend request

text \<open>The requests that delete rows, and the requests that insert or update a
  comment.\<close>

fun deletes_rows :: "effect \<Rightarrow> bool" where
  "deletes_rows (Backend (Delete_comment_likes _ _)) = True"
| "deletes_rows (Backend (Delete_post_likes _ _)) = True"
| "deletes_rows _ = False"

fun writes_comment :: "effect \<Rightarrow> bool" where
  "writes_comment (Backend (Insert_post_comments _ _ _ _)) = True"
| "writes_comment (Backend (Update_post_comments_content _ _ _ _)) = True"
| "writes_comment (Backend (Update_post_comments_deleted_at _ _ _)) = True"
| "writes_comment _ = False"

section \<open>CommentSection\<close>

datatype profile = Profile (username: jsstring) (avatar_url: "jsstring option")

text \<open>\<open>CommentWithLikes\<close>: the row of \<open>post_comments\<close> with its counters and, for a
  top-level comment, its fetched replies.\<close>

datatype commentWithLikes = CommentWithLikes
  (c_id: uuid) (c_content: jsstring) (created_at: timestamp) (updated_at: timestamp)
  (c_user_id: uuid) (parent_id: "uuid option") (deleted_at: "timestamp option")
  (profiles: "profile option") (likesCount: int) (isLiked: bool) (repliesCount: int)
  (replies: "commentWithLikes list option")

record comment_section =
  comments :: "commentWithLikes list"
  newComment :: jsstring
  replyingTo :: "uuid option"
  replyContent :: jsstring
  showReplies :: "uuid set"
  editingId :: "uuid option"
  editContent :: jsstring
  submitting :: bool

text \<open>
  The three submitting handlers up to the request they await. \<open>postId\<close> is the
  component's property, \<open>user\<close> the signed-in user's id, if any, \<open>now\<close> the time of
  \<open>new Date()\<close>.
\<close>

definition handleSubmitComment ::
    "uuid \<Rightarrow> uuid option \<Rightarrow> comment_section \<Rightarrow> comment_section \<times> effect list" where
  "handleSubmitComment postId user st =
     (case user of
        None \<Rightarrow> (st, [Toast_error Login_required])
      | Some uid \<Rightarrow>
          if trim (newComment st) = [] then (st, [Toast_error Enter_comment])
          else if length (newComment st) > 1000 then (st, [Toast_error Comment_max_1000])
          else (st\<lparr>submitting := True\<rparr>,
                [Backend (Insert_post_comments postId uid (trim (newComment st)) None)]))"

definition handleSubmitReply ::
    "uuid \<Rightarrow> uuid option \<Rightarrow> uuid \<Rightarrow> comment_section \<Rightarrow> comment_section \<times> effect list" where
  "handleSubmitReply postId user parentId st =
     (case user of
        None \<Rightarrow> (st, [Toast_error Login_required])
      | Some uid \<Rightarrow>
          if trim (replyContent st) = [] then (st, [Toast_error Enter_reply])
          else if length (replyContent st) > 1000 then (st, [Toast_error Reply_max_1000])
          else (st\<lparr>submitting := True\<rparr>,
                [Backend (Insert_post_comments postId uid (trim (replyContent st))
                           (Some parentId))]))"

definition handleEditComment ::
    "uuid option \<Rightarrow> uuid \<Rightarrow> timestamp \<Rightarrow> comment_section \<Rightarrow> comment_section \<times> effect list" where
  "handleEditComment user commentId now st =
     (if trim (editContent st) = [] then (st, [Toast_error Enter_comment])
      else if length (editContent st) > 1000 then (st, [Toast_error Comment_max_1000])
      else (st\<lparr>submitting := True\<rparr>,
            [Backend (Update_post_comments_content (trim (editContent st)) now commentId user)]))"

text \<open>\<open>handleDeleteComment\<close> up to the request it awaits; \<open>confirmed\<close> is the answer of
  \<open>window.confirm\<close>.\<close>

definition handleDeleteComment ::
    "bool \<Rightarrow> uuid option \<Rightarrow> uuid \<Rightarrow> timestamp \<Rightarrow> comment_section \<Rightarrow> comment_section \<times> effect list" where
  "handleDeleteComment confirmed user commentId now st =
     (if \<not> confirmed then (st, [])
      else (st, [Backend (Update_post_comments_deleted_at now commentId user)]))"

text \<open>What a comment and a reply show as their body: the placeholder "this comment
  has been deleted", the editing text area, or the content.\<close>

datatype body_view = Deleted_placeholder | Edit_textarea jsstring | Content_text jsstring

text \<open>\<open>comment.deleted_at ? \<dots> : \<dots>\<close> tests the timestamp for not being null (a
  timestamp is a non-empty string, which is truthy).\<close>

definition comment_body :: "comment_section \<Rightarrow> commentWithLikes \<Rightarrow> body_view" where
  "comment_body st comment =
     (if deleted_at comment \<noteq> None then Deleted_placeholder
      else if editingId st = Some (c_id comment) then Edit_textarea (editContent st)
      else Content_text (c_content comment))"

definition reply_body :: "comment_section \<Rightarrow> commentWithLikes \<Rightarrow> body_view" where
  "reply_body st reply =
     (if deleted_at reply \<noteq> None then Deleted_placeholder
      else if editingId st = Some (c_id reply) then Edit_textarea (editContent st)
      else Content_text (c_content reply))"

text \<open>
  \<open>handleToggleLike\<close>. The component keeps no state for a like request in flight: the
  handler reads \<open>user\<close> and its two arguments. \<open>liked\<close> is its argument
  \<open>isLiked\<close>, the flag of the clicked entry as rendered.
\<close>

definition handleToggleLike ::
    "uuid option \<Rightarrow> uuid \<Rightarrow> bool \<Rightarrow> comment_section \<Rightarrow> comment_section \<times> effect list" where
  "handleToggleLike user commentId liked st =
     (case user of
        None \<Rightarrow> (st, [Toast_error Login_required])
      | Some uid \<Rightarrow>
          (st, [Backend (if liked then Delete_comment_likes commentId uid
                         else Insert_comment_likes commentId uid)]))"

text \<open>The spread \<open>{...c, isLiked: \<dots>, likesCount: \<dots>}\<close> and \<open>{...c, replies: \<dots>}\<close>.\<close>

fun with_like :: "bool \<Rightarrow> int \<Rightarrow> commentWithLikes \<Rightarrow> commentWithLikes" where
  "with_like l n (CommentWithLikes i c ca ua u p d pr _ _ rc rs) =
     CommentWithLikes i c ca ua u p d pr n l rc rs"

fun with_replies :: "commentWithLikes list \<Rightarrow> commentWithLikes \<Rightarrow> commentWithLikes" where
  "with_replies rs' (CommentWithLikes i c ca ua u p d pr n l rc _) =
     CommentWithLikes i c ca ua u p d pr n l rc (Some rs')"

text \<open>The update of the comment list after a successful like request (the argument of
  \<open>setComments\<close>): the inner \<open>map\<close> over the replies and the outer \<open>map\<close> over the
  comments.\<close>

definition toggle_reply :: "uuid \<Rightarrow> bool \<Rightarrow> commentWithLikes \<Rightarrow> commentWithLikes" where
  "toggle_reply commentId liked reply =
     (if c_id reply = commentId
        then with_like (\<not> liked)
               (if liked then likesCount reply - 1 else likesCount reply + 1) reply
      else reply)"

definition toggle_comment :: "uuid \<Rightarrow> bool \<Rightarrow> commentWithLikes \<Rightarrow> commentWithLikes" where
  "toggle_comment commentId liked comment =
     (if c_id comment = commentId
        then with_like (\<not> liked)
               (if liked then likesCount comment - 1 else likesCount comment + 1) comment
      else (case replies comment of
              Some (r # rs) \<Rightarrow> with_replies (map (toggle_reply commentId liked) (r # rs)) comment
            | _ \<Rightarrow> comment))"

definition toggled_comments :: "uuid \<Rightarrow> bool \<Rightarrow> commentWithLikes list \<Rightarrow> commentWithLikes list" where
  "toggled_comments commentId liked cs = map (toggle_comment commentId liked) cs"

text \<open>When the like request has settled: on an error the toast, otherwise the list is
  set to the update of \<open>snapshot\<close>, the \<open>comments\<close> of the render the handler was
  created in.\<close>

definition handleToggleLike_settled ::
    "uuid \<Rightarrow> bool \<Rightarrow> commentWithLikes list \<Rightarrow> bool \<Rightarrow> comment_section \<Rightarrow> comment_section \<times> effect list" where
  "handleToggleLike_settled commentId liked snapshot failed st =
     (if failed then (st, [Toast_error Like_failed])
      else (st\<lparr>comments := toggled_comments commentId liked snapshot\<rparr>, []))"

section \<open>PostDetailPage\<close>

record post_detail =
  post_likesCount :: int
  post_isLiked :: bool
  likingInProgress :: bool
  heartAnimation :: bool

text \<open>\<open>handleLikeToggle\<close>; \<open>post_id\<close> is the \<open>id\<close> of the route.\<close>

definition handleLikeToggle ::
    "uuid option \<Rightarrow> uuid option \<Rightarrow> post_detail \<Rightarrow> post_detail \<times> effect list" where
  "handleLikeToggle post_id user st =
     (case user of
        None \<Rightarrow> (st, [Toast_error Login_required, Navigate_login])
      | Some uid \<Rightarrow>
          if likingInProgress st then (st, [])
          else (st\<lparr>heartAnimation := True, likingInProgress := True\<rparr>,
                [Clear_heartAnimation_after_600ms,
                 Backend (if post_isLiked st then Delete_post_likes post_id uid
                          else Insert_post_likes post_id uid)]))"

text \<open>When the request has settled; \<open>wasLiked\<close> is the \<open>isLiked\<close> the handler started
  with. The \<open>finally\<close> block clears the flag on both paths.\<close>

definition handleLikeToggle_settled :: "bool \<Rightarrow> bool \<Rightarrow> post_detail \<Rightarrow> post_detail \<times> effect list" where
  "handleLikeToggle_settled wasLiked failed st =
     (if failed then (st\<lparr>likingInProgress := False\<rparr>, [Toast_error Like_failed])
      else if wasLiked
        then (st\<lparr>post_isLiked := False, post_likesCount := post_likesCount st - 1,
                 likingInProgress := False\<rparr>, [])
      else (st\<lparr>post_isLiked := True, post_likesCount := post_likesCount st + 1,
               likingInProgress := False\<rparr>, []))"

text \<open>
  The ids of the entries of a comment list, top-level comments and their fetched replies,
  in rendering order; and an entry with its like toggled: the flag flipped and the
  counter one down when it was liked, one up otherwise.
\<close>

definition entry_ids :: "commentWithLikes list \<Rightarrow> uuid list" where
  "entry_ids cs =
     concat (map (\<lambda>c. c_id c # (case replies c of None \<Rightarrow> [] | Some rs \<Rightarrow> map c_id rs)) cs)"

definition like_flipped :: "commentWithLikes \<Rightarrow> commentWithLikes" where
  "like_flipped e =
     with_like (\<not> isLiked e) (if isLiked e then likesCount e - 1 else likesCount e + 1) e"

text \<open>An entry toggled with the flag the handler was given: the flag becomes the
  opposite of the given one, the counter goes one down when the given flag was set and
  one up otherwise.\<close>

definition like_toggled :: "bool \<Rightarrow> commentWithLikes \<Rightarrow> commentWithLikes" where
  "like_toggled liked e =
     with_like (\<not> liked) (if liked then likesCount e - 1 else likesCount e + 1) e"

section \<open>HomePage\<close>

text \<open>
  \<open>fetchPosts\<close> is split at its first \<open>await\<close>: \<open>fetchPosts\<close> sets the loading
  flag and builds the query, \<open>fetchPosts_settled\<close> runs on the result. The count
  queries per post never throw; \<open>likeCounts\<close> and \<open>commentCounts\<close> give their
  \<open>count\<close> (or \<open>null\<close>) by post id. \<open>{...post, likes_count, comments_count}\<close>
  is kept as the row with its two counts.
\<close>

datatype SortOption = Latest | Popular

definition POSTS_PER_PAGE :: nat where
  "POSTS_PER_PAGE = 12"

record post_row =
  row_id :: uuid
  row_title :: jsstring
  row_content :: jsstring
  row_tags :: "jsstring list option"
  row_is_public :: "bool option"
  row_slug :: "jsstring option"
  row_created_at :: timestamp
  row_thumbnail_url :: "jsstring option"
  row_views_count :: "nat option"
  row_user_id :: uuid
  row_profiles :: "profile option"

record post_with_counts =
  row :: post_row
  likes_count :: nat
  comments_count :: nat

record posts_query =
  q_is_public :: bool
  q_order_by_created_at_descending :: bool
  q_range_from :: nat
  q_range_to :: nat

record posts_result =
  data :: "post_row list option"
  query_failed :: bool
  total_count :: "nat option"

record home_page =
  posts :: "post_with_counts list"
  loading :: bool
  loadingMore :: bool
  hasMore :: bool

definition fetchPosts_query :: "nat \<Rightarrow> SortOption \<Rightarrow> posts_query" where
  "fetchPosts_query pageNum sortOption =
     (let from = pageNum * POSTS_PER_PAGE;
          to = from + POSTS_PER_PAGE - 1
      in \<lparr>q_is_public = True, q_order_by_created_at_descending = (sortOption = Latest),
          q_range_from = from, q_range_to = to\<rparr>)"

definition fetchPosts :: "nat \<Rightarrow> SortOption \<Rightarrow> home_page \<Rightarrow> home_page \<times> posts_query" where
  "fetchPosts pageNum sortOption st =
     (if pageNum = 0 then st\<lparr>loading := True\<rparr> else st\<lparr>loadingMore := True\<rparr>,
      fetchPosts_query pageNum sortOption)"

text \<open>\<open>count || 0\<close>.\<close>

definition or_zero :: "nat option \<Rightarrow> nat" where
  "or_zero c = (case c of None \<Rightarrow> 0 | Some n \<Rightarrow> n)"

definition postsWithCounts ::
    "(uuid \<Rightarrow> nat option) \<Rightarrow> (uuid \<Rightarrow> nat option) \<Rightarrow> post_row list \<Rightarrow> post_with_counts list" where
  "postsWithCounts likeCounts commentCounts rows =
     map (\<lambda>post. \<lparr>row = post, likes_count = or_zero (likeCounts (row_id post)),
                   comments_count = or_zero (commentCounts (row_id post))\<rparr>) rows"

definition score :: "post_with_counts \<Rightarrow> nat" where
  "score a = likes_count a + comments_count a"

definition by_score_descending :: "post_with_counts \<Rightarrow> post_with_counts \<Rightarrow> int" where
  "by_score_descending a b = int (score b) - int (score a)"

text \<open>
  \<open>Array.prototype.sort\<close> with a comparator is stable; with a consistent comparator
  its result is the stable sorted permutation, which insertion from the right computes.
\<close>

fun insert_sorted :: "('a \<Rightarrow> 'a \<Rightarrow> int) \<Rightarrow> 'a \<Rightarrow> 'a list \<Rightarrow> 'a list" where
  "insert_sorted cmp x [] = [x]"
| "insert_sorted cmp x (y # ys) =
     (if cmp x y \<le> 0 then x # y # ys else y # insert_sorted cmp x ys)"

definition Array_sort :: "('a \<Rightarrow> 'a \<Rightarrow> int) \<Rightarrow> 'a list \<Rightarrow> 'a list" where
  "Array_sort cmp xs = foldr (insert_sorted cmp) xs []"

definition fetched_page ::
    "SortOption \<Rightarrow> posts_result \<Rightarrow> (uuid \<Rightarrow> nat option) \<Rightarrow> (uuid \<Rightarrow> nat option) \<Rightarrow> post_with_counts list" where
  "fetched_page sortOption r likeCounts commentCounts =
     (let withCounts = postsWithCounts likeCounts commentCounts (case data r of None \<Rightarrow> [] | Some rows \<Rightarrow> rows)
      in if sortOption = Popular then Array_sort by_score_descending withCounts else withCounts)"

definition fetchPosts_settled ::
    "nat \<Rightarrow> SortOption \<Rightarrow> bool \<Rightarrow> posts_result \<Rightarrow> (uuid \<Rightarrow> nat option) \<Rightarrow> (uuid \<Rightarrow> nat option) \<Rightarrow>
     home_page \<Rightarrow> home_page" where
  "fetchPosts_settled pageNum sortOption reset r likeCounts commentCounts st =
     (if query_failed r then st\<lparr>loading := False, loadingMore := False\<rparr>
      else
        st\<lparr>posts := (if reset then fetched_page sortOption r likeCounts commentCounts
                     else posts st @ fetched_page sortOption r likeCounts commentCounts),
           hasMore := (case total_count r of
                         None \<Rightarrow> False
                       | Some c \<Rightarrow> if c = 0 then False else pageNum * POSTS_PER_PAGE + POSTS_PER_PAGE < c),
           loading := False, loadingMore := False\<rparr>)"

section \<open>SearchPage\<close>

text \<open>
  \<open>highlightText\<close> builds a regular expression from the search query as typed,
  splits the text with it and tests every part. The host's regular expressions are a
  parameter: \<open>new_RegExp pattern flags\<close> is the constructor, which throws a
  \<open>SyntaxError\<close> on a pattern that is not well-formed; \<open>String_split\<close> is
  \<open>text.split(regex)\<close>; \<open>RegExp_test regex lastIndex s\<close> is \<open>regex.test(s)\<close>
  started at the expression's \<open>lastIndex\<close>, which a global expression keeps between
  calls, giving the answer and the new \<open>lastIndex\<close>. A part is either marked or
  left as plain text; a blank query gives the text itself.
\<close>

datatype js_exception = SyntaxError

record 'r regexp_engine =
  new_RegExp :: "jsstring \<Rightarrow> jsstring \<Rightarrow> js_exception + 'r"
  String_split :: "'r \<Rightarrow> jsstring \<Rightarrow> jsstring list"
  RegExp_test :: "'r \<Rightarrow> nat \<Rightarrow> jsstring \<Rightarrow> bool \<times> nat"

datatype fragment = Mark jsstring | Plain jsstring

datatype highlighted = Text jsstring | Fragments "fragment list"

fun map_test :: "'r regexp_engine \<Rightarrow> 'r \<Rightarrow> nat \<Rightarrow> jsstring list \<Rightarrow> fragment list" where
  "map_test E regex lastIndex [] = []"
| "map_test E regex lastIndex (part # parts) =
     (case RegExp_test E regex lastIndex part of
        (matched, lastIndex') \<Rightarrow>
          (if matched then Mark part else Plain part) # map_test E regex lastIndex' parts)"

definition highlightText :: "'r regexp_engine \<Rightarrow> jsstring \<Rightarrow> jsstring \<Rightarrow> js_exception + highlighted" where
  "highlightText E text searchQuery =
     (if trim searchQuery = [] then Inr (Text text)
      else
        (case new_RegExp E (js ''('' @ searchQuery @ js '')'') (js ''gi'') of
           Inl e \<Rightarrow> Inl e
         | Inr regex \<Rightarrow> Inr (Fragments (map_test E regex 0 (String_split E regex text)))))"

text \<open>
  An engine that checks only that every group of a pattern is closed, as the pattern
  grammar of ECMAScript requires, and matches nothing.
\<close>

fun group_depth :: "nat \<Rightarrow> jsstring \<Rightarrow> nat option" where
  "group_depth d [] = Some d"
| "group_depth d (c # cs) =
     (if c = 40 then group_depth (Suc d) cs
      else if c = 41 then (case d of 0 \<Rightarrow> None | Suc d' \<Rightarrow> group_depth d' cs)
      else group_depth d cs)"

definition group_checking_engine :: "jsstring regexp_engine" where
  "group_checking_engine =
     \<lparr>new_RegExp = (\<lambda>pattern flags.
        if group_depth 0 pattern = Some 0 then Inr pattern else Inl SyntaxError),
      String_split = (\<lambda>regex s. [s]),
      RegExp_test = (\<lambda>regex lastIndex s. (False, 0))\<rparr>"

section \<open>Example values\<close>

definition ex_section :: "jsstring \<Rightarrow> comment_section" where
  "ex_section text =
     \<lparr>comments = [], newComment = text, replyingTo = None, replyContent = text,
      showReplies = {}, editingId = None, editContent = text, submitting = False\<rparr>"

definition ex_reply1 :: commentWithLikes where
  "ex_reply1 = CommentWithLikes (js ''r1'') (js ''first'') 10 10 (js ''u2'') (Some (js ''c2'')) None None 0 False 0 (Some [])"
definition ex_reply2 :: commentWithLikes where
  "ex_reply2 = CommentWithLikes (js ''r2'') (js ''second'') 11 11 (js ''u1'') (Some (js ''c2'')) None None 3 True 0 (Some [])"
definition ex_comment1 :: commentWithLikes where
  "ex_comment1 = CommentWithLikes (js ''c1'') (js ''hello'') 1 1 (js ''u1'') None None None 2 True 0 (Some [])"
definition ex_comment2 :: commentWithLikes where
  "ex_comment2 = CommentWithLikes (js ''c2'') (js ''world'') 2 2 (js ''u2'') None None None 0 False 2 (Some [ex_reply1, ex_reply2])"

text \<open>A comment list of two comments, the second with two replies; and a list in which
  the first comment is present twice, as when two offset pages overlap.\<close>

definition ex_comments_state :: "commentWithLikes list \<Rightarrow> comment_section" where
  "ex_comments_state cs =
     \<lparr>comments = cs, newComment = [], replyingTo = None, replyContent = [],
      showReplies = {}, editingId = None, editContent = [], submitting = False\<rparr>"

definition ex_comments :: "commentWithLikes list" where
  "ex_comments = [ex_comment1, ex_comment2]"

definition ex_overlapping_pages :: "commentWithLikes list" where
  "ex_overlapping_pages = [ex_comment1, ex_comment2, ex_comment1]"

definition ex_row :: "jsstring \<Rightarrow> post_row" where
  "ex_row i =
     \<lparr>row_id = i, row_title = [], row_content = [], row_tags = None, row_is_public = Some True,
      row_slug = None, row_created_at = 0, row_thumbnail_url = None, row_views_count = None,
      row_user_id = js ''u'', row_profiles = None\<rparr>"

definition ex_likeCounts :: "uuid \<Rightarrow> nat option" where
  "ex_likeCounts i = (if i = js ''a'' then Some 1 else if i = js ''b'' then Some 5 else None)"

definition ex_commentCounts :: "uuid \<Rightarrow> nat option" where
  "ex_commentCounts i = (if i = js ''c'' then Some 3 else None)"

definition ex_result :: posts_result where
  "ex_result =
     \<lparr>data = Some [ex_row (js ''a''), ex_row (js ''b''), ex_row (js ''c'')],
      query_failed = False, total_count = Some 30\<rparr>"

definition ex_home :: home_page where
  "ex_home = \<lparr>posts = [], loading = False, loadingMore = True, hasMore = False\<rparr>"

section \<open>Properties of imageUtils.ts\<close>

lemma member_allowed:
  "t \<in> set ALLOWED_IMAGE_TYPES \<longleftrightarrow>
     t = js ''image/jpeg'' \<or> t = js ''image/jpg'' \<or> t = js ''image/png'' \<or>
     t = js ''image/gif'' \<or> t = js ''image/webp''"
  by (auto simp: ALLOWED_IMAGE_TYPES_def)

text \<open>
  C3. \<open>validateImageFile\<close> accepts a file exactly when its MIME type is one of
  image/jpeg, image/jpg, image/png, image/gif, image/webp and its size is at most
  5 * 1024 * 1024 bytes (the bound itself is accepted). Every rejected file carries an
  error message and every accepted one carries none; the type is checked first, so a file
  with a wrong type gets the type message whatever its size, and the size message is given
  exactly to a file of an allowed type that is too large.
\<close>

theorem validateImageFile_spec:
  "(valid (validateImageFile f) \<longleftrightarrow>
      (file_type f = js ''image/jpeg'' \<or> file_type f = js ''image/jpg'' \<or>
       file_type f = js ''image/png'' \<or> file_type f = js ''image/gif'' \<or>
       file_type f = js ''image/webp'') \<and> file_size f \<le> 5 * 1024 * 1024) \<and>
   (valid (validateImageFile f) \<longleftrightarrow> error (validateImageFile f) = None) \<and>
   (error (validateImageFile f) = Some OnlyJpgPngGifWebp \<longleftrightarrow>
      \<not> (file_type f = js ''image/jpeg'' \<or> file_type f = js ''image/jpg'' \<or>
         file_type f = js ''image/png'' \<or> file_type f = js ''image/gif'' \<or>
         file_type f = js ''image/webp'')) \<and>
   (error (validateImageFile f) = Some FileTooLarge \<longleftrightarrow>
      (file_type f = js ''image/jpeg'' \<or> file_type f = js ''image/jpg'' \<or>
       file_type f = js ''image/png'' \<or> file_type f = js ''image/gif'' \<or>
       file_type f = js ''image/webp'') \<and> file_size f > 5 * 1024 * 1024)"
  unfolding validateImageFile_def member_allowed MAX_FILE_SIZE_def
  by (simp add: not_le)

lemma Math_round_div_le: "a \<le> b * m \<Longrightarrow> 0 < b \<Longrightarrow> Math_round_div a b \<le> m"
proof -
  assume a: "a \<le> b * m" and b: "0 < b"
  have "2 * a + b < 2 * b * (Suc m)" using a b by simp
  then have "(2 * a + b) div (2 * b) < Suc m"
    using b by (simp add: less_mult_imp_div_less mult.commute)
  then show ?thesis by (simp add: Math_round_div_def)
qed

lemma Math_round_div_near:
  assumes "0 < b"
  shows "2 * b * Math_round_div a b \<le> 2 * a + b \<and> 2 * a < 2 * b * Math_round_div a b + b"
proof -
  let ?q = "(2 * a + b) div (2 * b)"
  have "2 * a + b = 2 * b * ?q + (2 * a + b) mod (2 * b)" by simp
  moreover have "(2 * a + b) mod (2 * b) < 2 * b" using assms by simp
  ultimately show ?thesis unfolding Math_round_div_def by linarith
qed

text \<open>With one maximum for both sides, as every caller passes (1920 by default, 500 for
  avatars), the canvas fits the maximum.\<close>

lemma resizeImage_dimensions_square:
  assumes "resizeImage_dimensions w h m m = Some (w', h')"
  shows "w' \<le> m \<and> h' \<le> m"
  using assms unfolding resizeImage_dimensions_def
  by (auto split: if_splits intro!: Math_round_div_le simp: mult.commute)

text \<open>The canvas has the original's dimensions, or one side is its maximum and the other
  is the proportional length rounded to the nearest integer.\<close>

lemma resizeImage_dimensions_ratio:
  assumes "resizeImage_dimensions w h mw mh = Some (w', h')"
  shows "(w' = w \<and> h' = h) \<or>
         (w' = mw \<and> 2 * w * h' \<le> 2 * (h * mw) + w \<and> 2 * (h * mw) < 2 * w * h' + w) \<or>
         (h' = mh \<and> 2 * h * w' \<le> 2 * (w * mh) + h \<and> 2 * (w * mh) < 2 * h * w' + h)"
proof (cases "w > h")
  case True
  show ?thesis
  proof (cases "w > mw")
    case wide: True
    with True have "0 < w" by simp
    from Math_round_div_near [OF this, of "h * mw"] assms True wide show ?thesis
      by (auto simp: resizeImage_dimensions_def split: if_splits)
  next
    case False
    with assms True show ?thesis
      by (auto simp: resizeImage_dimensions_def split: if_splits)
  qed
next
  case False
  show ?thesis
  proof (cases "h > mh")
    case high: True
    then have "0 < h" by simp
    from Math_round_div_near [OF this, of "w * mh"] assms False high show ?thesis
      by (auto simp: resizeImage_dimensions_def split: if_splits)
  next
    case lo: False
    with assms False show ?thesis
      by (auto simp: resizeImage_dimensions_def split: if_splits)
  qed
qed

text \<open>
  C5. The claim: whenever the original is not returned unchanged, the computed width and
  height are each at most the corresponding maximum. The code scales by the longer side
  only. A 1000 x 900 image with maxima 2000 x 500 is landscape and not wider than 2000,
  so nothing is scaled and the canvas is 1000 x 900, higher than 500. A 3000 x 2900 image
  with maxima 1920 x 1000 is scaled by its width to 1920 x 1856, higher than 1000.
\<close>

theorem resizeImage_dimensions_exceed_maximum:
  "resizeImage_dimensions 1000 900 2000 500 = Some (1000, 900) \<and>
   resizeImage_dimensions 3000 2900 1920 1000 = Some (1920, 1856)"
  by (simp add: resizeImage_dimensions_def Math_round_div_def)

section \<open>Properties of generateSlug\<close>

lemma spec_replace_runs_run:
  "p c \<Longrightarrow> spec_replace_runs p h (c # cs) = h # spec_replace_runs p h (dropWhile p cs)"
  by (induction cs arbitrary: c) (auto split: list.splits)

lemma replace_runs_eq_spec: "replace_runs p [h] s = spec_replace_runs p h s"
proof (induction p "[h]" s rule: replace_runs.induct)
  case (1 p)
  show ?case by simp
next
  case (2 p c cs)
  show ?case
  proof (cases "p c")
    case True
    with 2 show ?thesis by (simp add: spec_replace_runs_run del: spec_replace_runs.simps)
  next
    case False
    with 2 show ?thesis by simp
  qed
qed

lemma replace_each_eq_filter: "replace_each p [] s = filter (\<lambda>c. \<not> p c) s"
  by (induction s) (auto simp: replace_each_def)

lemma set_replace_runs: "set (replace_runs p r s) \<subseteq> set r \<union> {c \<in> set s. \<not> p c}"
proof (induction p r s rule: replace_runs.induct)
  case (1 p r)
  show ?case by simp
next
  case (2 p r c cs)
  show ?case
  proof (cases "p c")
    case True
    have "set (dropWhile p cs) \<subseteq> set cs" by (rule set_dropWhileD [THEN subsetI])
    with 2 True show ?thesis by auto
  next
    case False
    with 2 show ?thesis by auto
  qed
qed

lemma replace_runs_head:
  "replace_runs p [h] (dropWhile p cs) = [] \<or> \<not> p (hd (replace_runs p [h] (dropWhile p cs)))"
proof (cases "dropWhile p cs")
  case Nil
  then show ?thesis by (simp only: replace_runs.simps simp_thms)
next
  case (Cons d ds)
  then have "\<not> p d" by (metis hd_dropWhile list.sel(1) list.distinct(1))
  with Cons show ?thesis by simp
qed

lemma successively_replace_runs:
  "successively (\<lambda>a b. \<not> (p a \<and> p b)) (replace_runs p [h] s)"
proof (induction p "[h]" s rule: replace_runs.induct)
  case (1 p)
  show ?case by simp
next
  case (2 p c cs)
  show ?case
  proof (cases "p c")
    case True
    with 2 replace_runs_head [of p h cs] show ?thesis
      by (auto simp: successively_Cons)
  next
    case False
    with 2 show ?thesis by (auto simp: successively_Cons)
  qed
qed

lemma successively_take: "successively P xs \<Longrightarrow> successively P (take n xs)"
  using successively_append_iff [of P "take n xs" "drop n xs"] by simp

lemma digits_ge10: "10 \<le> n \<Longrightarrow> digits n = digits (n div 10) @ [48 + n mod 10]"
  by (subst digits.simps) simp

lemma slice_last_snoc: "slice_last (Suc k) (xs @ [x]) = slice_last k xs @ [x]"
  by (simp add: slice_last_def)

lemma slice_last_one_digits: "slice_last (Suc 0) (digits m) = [48 + m mod 10]"
  by (subst digits.simps) (simp add: slice_last_def)

lemma length_slice_last: "length (slice_last n s) \<le> n"
  by (simp add: slice_last_def)

lemma slice_last_6_digits:
  assumes "100000 \<le> n"
  shows "slice_last 6 (digits n) =
     [48 + n div 100000 mod 10, 48 + n div 10000 mod 10, 48 + n div 1000 mod 10,
      48 + n div 100 mod 10, 48 + n div 10 mod 10, 48 + n mod 10]"
proof -
  have d: "n div 10 div 10 = n div 100" "n div 100 div 10 = n div 1000"
    "n div 1000 div 10 = n div 10000" "n div 10000 div 10 = n div 100000"
    by (simp_all add: div_mult2_eq [symmetric])
  have 1: "10 \<le> n" "10 \<le> n div 10" "10 \<le> n div 100" "10 \<le> n div 1000" "10 \<le> n div 10000"
    using assms by simp_all
  have 6: "(6::nat) = Suc (Suc (Suc (Suc (Suc (Suc 0)))))" by simp
  have "slice_last 6 (digits n) = slice_last (Suc (Suc (Suc (Suc (Suc 0))))) (digits (n div 10)) @ [48 + n mod 10]"
    by (simp only: 6 digits_ge10 [OF 1(1)] slice_last_snoc)
  also have "slice_last (Suc (Suc (Suc (Suc (Suc 0))))) (digits (n div 10)) =
      slice_last (Suc (Suc (Suc (Suc 0)))) (digits (n div 100)) @ [48 + n div 10 mod 10]"
    by (simp only: digits_ge10 [OF 1(2)] slice_last_snoc d)
  also have "slice_last (Suc (Suc (Suc (Suc 0)))) (digits (n div 100)) =
      slice_last (Suc (Suc (Suc 0))) (digits (n div 1000)) @ [48 + n div 100 mod 10]"
    by (simp only: digits_ge10 [OF 1(3)] slice_last_snoc d)
  also have "slice_last (Suc (Suc (Suc 0))) (digits (n div 1000)) =
      slice_last (Suc (Suc 0)) (digits (n div 10000)) @ [48 + n div 1000 mod 10]"
    by (simp only: digits_ge10 [OF 1(4)] slice_last_snoc d)
  also have "slice_last (Suc (Suc 0)) (digits (n div 10000)) =
      slice_last (Suc 0) (digits (n div 100000)) @ [48 + n div 10000 mod 10]"
    by (simp only: digits_ge10 [OF 1(5)] slice_last_snoc d)
  also have "slice_last (Suc 0) (digits (n div 100000)) = [48 + n div 100000 mod 10]"
    by (rule slice_last_one_digits)
  finally show ?thesis by simp
qed

lemma digits_lt10: "n < 10 \<Longrightarrow> digits n = [48 + n]"
  by (subst digits.simps) simp

text \<open>The slug of a title with capitals, punctuation, repeated spaces and hyphens.\<close>

lemma generateSlug_example:
  "generateSlug asciiLower 1730600000123 (js ''  Hello,  World -- 2024!  '') =
     js ''hello-world-2024-000123''"
  by (simp add: generateSlug_def slugBody_def js_def asciiLower_def trim_def isWhiteSpace_def
      replace_each_def isSpecial_def isWordChar_def isHangulSyllable_def hyphen_def
      substring0_def slice_last_def toString_def digits_ge10 digits_lt10)

lemma list_all_slugBody:
  "list_all (\<lambda>c. isWordChar c \<or> isHangulSyllable c \<or> c = hyphen) (slugBody lower t)"
proof -
  let ?s = "replace_each isSpecial [] (trim (lower t))"
  let ?w = "replace_runs isWhiteSpace [hyphen] ?s"
  let ?h = "replace_runs (\<lambda>c. c = hyphen) [hyphen] ?w"
  have s: "\<forall>c \<in> set ?s. \<not> isSpecial c"
    by (simp add: replace_each_eq_filter)
  have w: "\<forall>c \<in> set ?w. isWordChar c \<or> isHangulSyllable c \<or> c = hyphen"
    using set_replace_runs [of isWhiteSpace "[hyphen]" ?s] s
    by (auto simp: isSpecial_def)
  have h: "\<forall>c \<in> set ?h. isWordChar c \<or> isHangulSyllable c \<or> c = hyphen"
    using set_replace_runs [of "\<lambda>c. c = hyphen" "[hyphen]" ?w] w by auto
  have "set (slugBody lower t) \<subseteq> set ?h"
    unfolding slugBody_def substring0_def by (rule set_take_subset)
  with h show ?thesis by (auto simp: list_all_iff)
qed

lemma successively_slugBody:
  "successively (\<lambda>a b. \<not> (a = hyphen \<and> b = hyphen)) (slugBody lower t)"
  unfolding slugBody_def substring0_def
  by (rule successively_take) (rule successively_replace_runs)

lemma length_slugBody: "length (slugBody lower t) \<le> 50"
  by (simp add: slugBody_def substring0_def)

text \<open>
  C4. \<open>generateSlug\<close> is a function of the title and the timestamp (and of the host's
  lower-casing). Its body is the lower-cased, trimmed title with every character other
  than word characters, whitespace, Hangul syllables and hyphens removed, each whitespace
  run replaced by one hyphen, consecutive hyphens collapsed, cut to 50 characters: so the
  body has at most 50 characters, all of them word characters, Hangul syllables or
  hyphens, and no two hyphens in a row. The slug is the body, a hyphen, and the last 6
  characters of the timestamp's decimal notation: at most 6 characters, and for a
  timestamp of at least 100000 (any time later than 100 seconds after the epoch) exactly
  its last 6 decimal digits. The slug has at most 57 characters.
\<close>

theorem generateSlug_spec:
  "slugBody lower t =
     take 50 (spec_replace_runs (\<lambda>c. c = hyphen) hyphen
       (spec_replace_runs isWhiteSpace hyphen
         (filter (\<lambda>c. isWordChar c \<or> isWhiteSpace c \<or> isHangulSyllable c \<or> c = hyphen)
           (trim (lower t))))) \<and>
   generateSlug lower now t = slugBody lower t @ [hyphen] @ slice_last 6 (toString now) \<and>
   length (slugBody lower t) \<le> 50 \<and>
   list_all (\<lambda>c. isWordChar c \<or> isHangulSyllable c \<or> c = hyphen) (slugBody lower t) \<and>
   successively (\<lambda>a b. \<not> (a = hyphen \<and> b = hyphen)) (slugBody lower t) \<and>
   length (slice_last 6 (toString now)) \<le> 6 \<and>
   (100000 \<le> now \<longrightarrow>
      slice_last 6 (toString now) =
        [48 + nat now div 100000 mod 10, 48 + nat now div 10000 mod 10,
         48 + nat now div 1000 mod 10, 48 + nat now div 100 mod 10,
         48 + nat now div 10 mod 10, 48 + nat now mod 10]) \<and>
   length (generateSlug lower now t) \<le> 57"
proof -
  have body: "slugBody lower t =
     take 50 (spec_replace_runs (\<lambda>c. c = hyphen) hyphen
       (spec_replace_runs isWhiteSpace hyphen
         (filter (\<lambda>c. isWordChar c \<or> isWhiteSpace c \<or> isHangulSyllable c \<or> c = hyphen)
           (trim (lower t)))))"
    by (simp add: slugBody_def substring0_def replace_runs_eq_spec replace_each_eq_filter
        isSpecial_def)
  have suffix: "length (slice_last 6 (toString now)) \<le> 6"
    by (rule length_slice_last)
  have digits6: "100000 \<le> now \<longrightarrow>
      slice_last 6 (toString now) =
        [48 + nat now div 100000 mod 10, 48 + nat now div 10000 mod 10,
         48 + nat now div 1000 mod 10, 48 + nat now div 100 mod 10,
         48 + nat now div 10 mod 10, 48 + nat now mod 10]"
  proof
    assume n: "100000 \<le> now"
    then have "100000 \<le> nat now" by simp
    from slice_last_6_digits [OF this] n show "slice_last 6 (toString now) =
        [48 + nat now div 100000 mod 10, 48 + nat now div 10000 mod 10,
         48 + nat now div 1000 mod 10, 48 + nat now div 100 mod 10,
         48 + nat now div 10 mod 10, 48 + nat now mod 10]"
      by (simp add: toString_def)
  qed
  have total: "length (generateSlug lower now t) \<le> 57"
    using length_slugBody [of lower t] suffix by (simp add: generateSlug_def)
  show ?thesis
    using body suffix digits6 total list_all_slugBody [of lower t]
      successively_slugBody [of lower t] length_slugBody [of lower t]
    by (simp only: generateSlug_def simp_thms)
qed

theorem generateSlug_spec_witness:
  "(100000::int) \<le> 1730600000123 \<and>
   slice_last 6 (toString 1730600000123) = js ''000123'' \<and>
   length (generateSlug asciiLower 1730600000123 (js ''Hello World'')) \<le> 57"
  using generateSlug_spec [of asciiLower "js ''Hello World''" 1730600000123]
  by (simp add: js_def)

section \<open>Properties of handleSubmit\<close>

lemma length_tagArray: "length (tagArray input) \<le> 5"
  by (simp add: tagArray_def)

lemma tagArray_example:
  "tagArray (js ''a, b,,c ,d,e,f,g'') = [js ''a'', js ''b'', js ''c'', js ''d'', js ''e'']"
  by (simp add: tagArray_def js_def comma_def trim_def isWhiteSpace_def)

text \<open>
  C9. In both pages the tag array (split on commas, each piece trimmed, empty pieces
  dropped, first five taken) has at most 5 elements, so \<open>handleSubmit\<close> never takes
  the branch that rejects more than 5 tags, whatever the user, the form and the time.
\<close>

theorem handleSubmit_tag_limit_unreachable:
  "length (tagArray input) \<le> 5 \<and>
   WritePage_handleSubmit user f \<noteq> Inl AtMostFiveTags \<and>
   EditPage_handleSubmit user post_id now f \<noteq> Inl AtMostFiveTags"
proof -
  have le: "\<not> 5 < length (tagArray (post_form.tags f))"
    using length_tagArray [of "post_form.tags f"] by simp
  show ?thesis
    unfolding WritePage_handleSubmit_def EditPage_handleSubmit_def
    using le by (simp add: length_tagArray split: option.split)
qed

section \<open>Properties of CommentSection\<close>

text \<open>
  C1. A comment, reply or edit text longer than 1000 characters is rejected by its handler
  with an error toast, the state unchanged and no request issued (so no insert and no
  update). For a signed-in user and a text that is not blank and at most 1000 characters
  long, the handler issues exactly one request, which carries the trimmed text: the
  insert of the comment, the insert of the reply under its parent, or the update of the
  edited comment.
\<close>

theorem comment_length_limit:
  "(1000 < length (newComment st) \<longrightarrow>
      (\<exists>t. handleSubmitComment postId user st = (st, [Toast_error t])) \<and>
      filter writes_comment (snd (handleSubmitComment postId user st)) = []) \<and>
   (1000 < length (replyContent st) \<longrightarrow>
      (\<exists>t. handleSubmitReply postId user parentId st = (st, [Toast_error t])) \<and>
      filter writes_comment (snd (handleSubmitReply postId user parentId st)) = []) \<and>
   (1000 < length (editContent st) \<longrightarrow>
      (\<exists>t. handleEditComment user commentId now st = (st, [Toast_error t])) \<and>
      filter writes_comment (snd (handleEditComment user commentId now st)) = []) \<and>
   (trim (newComment st) \<noteq> [] \<and> length (newComment st) \<le> 1000 \<longrightarrow>
      handleSubmitComment postId (Some uid) st =
        (st\<lparr>submitting := True\<rparr>,
         [Backend (Insert_post_comments postId uid (trim (newComment st)) None)])) \<and>
   (trim (replyContent st) \<noteq> [] \<and> length (replyContent st) \<le> 1000 \<longrightarrow>
      handleSubmitReply postId (Some uid) parentId st =
        (st\<lparr>submitting := True\<rparr>,
         [Backend (Insert_post_comments postId uid (trim (replyContent st)) (Some parentId))])) \<and>
   (trim (editContent st) \<noteq> [] \<and> length (editContent st) \<le> 1000 \<longrightarrow>
      handleEditComment (Some uid) commentId now st =
        (st\<lparr>submitting := True\<rparr>,
         [Backend (Update_post_comments_content (trim (editContent st)) now commentId (Some uid))]))"
  by (auto simp: handleSubmitComment_def handleSubmitReply_def handleEditComment_def
      split: option.splits)

theorem comment_length_limit_witness:
  "1000 < length (newComment (ex_section (replicate 1001 97))) \<and>
   filter writes_comment
     (snd (handleSubmitComment (js ''p'') (Some (js ''u'')) (ex_section (replicate 1001 97)))) = [] \<and>
   filter writes_comment
     (snd (handleSubmitReply (js ''p'') (Some (js ''u'')) (js ''c'') (ex_section (replicate 1001 97)))) = [] \<and>
   filter writes_comment
     (snd (handleEditComment (Some (js ''u'')) (js ''c'') 5 (ex_section (replicate 1001 97)))) = [] \<and>
   trim (newComment (ex_section (js '' hi ''))) \<noteq> [] \<and>
   length (newComment (ex_section (js '' hi ''))) \<le> 1000 \<and>
   snd (handleSubmitComment (js ''p'') (Some (js ''u'')) (ex_section (js '' hi ''))) =
     [Backend (Insert_post_comments (js ''p'') (js ''u'') (js ''hi'') None)] \<and>
   snd (handleSubmitReply (js ''p'') (Some (js ''u'')) (js ''c'') (ex_section (js '' hi ''))) =
     [Backend (Insert_post_comments (js ''p'') (js ''u'') (js ''hi'') (Some (js ''c'')))] \<and>
   snd (handleEditComment (Some (js ''u'')) (js ''c'') 5 (ex_section (js '' hi ''))) =
     [Backend (Update_post_comments_content (js ''hi'') 5 (js ''c'') (Some (js ''u'')))]"
proof -
  have long: "1000 < length (newComment (ex_section (replicate 1001 97)))"
    "1000 < length (replyContent (ex_section (replicate 1001 97)))"
    "1000 < length (editContent (ex_section (replicate 1001 97)))"
    by (simp_all add: ex_section_def)
  have t: "trim (js '' hi '') = js ''hi''"
    by (simp add: trim_def js_def isWhiteSpace_def)
  have ok: "trim (newComment (ex_section (js '' hi ''))) \<noteq> []"
    "length (newComment (ex_section (js '' hi ''))) \<le> 1000"
    "trim (replyContent (ex_section (js '' hi ''))) \<noteq> []"
    "length (replyContent (ex_section (js '' hi ''))) \<le> 1000"
    "trim (editContent (ex_section (js '' hi ''))) \<noteq> []"
    "length (editContent (ex_section (js '' hi ''))) \<le> 1000"
    by (simp_all add: ex_section_def t) (simp_all add: js_def)
  from comment_length_limit [of "ex_section (replicate 1001 97)" "js ''p''" "Some (js ''u'')" "js ''c''"
      "js ''c''" 5 "js ''u''"] long
  have a: "filter writes_comment
     (snd (handleSubmitComment (js ''p'') (Some (js ''u'')) (ex_section (replicate 1001 97)))) = []"
    "filter writes_comment
     (snd (handleSubmitReply (js ''p'') (Some (js ''u'')) (js ''c'') (ex_section (replicate 1001 97)))) = []"
    "filter writes_comment
     (snd (handleEditComment (Some (js ''u'')) (js ''c'') 5 (ex_section (replicate 1001 97)))) = []"
    by auto
  from comment_length_limit [of "ex_section (js '' hi '')" "js ''p''" "Some (js ''u'')" "js ''c''"
      "js ''c''" 5 "js ''u''"] ok
  have b: "snd (handleSubmitComment (js ''p'') (Some (js ''u'')) (ex_section (js '' hi ''))) =
     [Backend (Insert_post_comments (js ''p'') (js ''u'') (js ''hi'') None)]"
    "snd (handleSubmitReply (js ''p'') (Some (js ''u'')) (js ''c'') (ex_section (js '' hi ''))) =
     [Backend (Insert_post_comments (js ''p'') (js ''u'') (js ''hi'') (Some (js ''c'')))]"
    "snd (handleEditComment (Some (js ''u'')) (js ''c'') 5 (ex_section (js '' hi ''))) =
     [Backend (Update_post_comments_content (js ''hi'') 5 (js ''c'') (Some (js ''u'')))]"
    by (simp_all add: ex_section_def t)
  from long(1) a ok(1,2) b show ?thesis by simp
qed

text \<open>
  C7. \<open>handleDeleteComment\<close>, once confirmed, issues one request: the update that sets
  \<open>deleted_at\<close> to the current time on the rows whose id is the comment's and whose
  user is the current one. Confirmed or not, it issues no request that deletes rows. A
  comment or a reply whose \<open>deleted_at\<close> is not null shows the placeholder, not its
  content.
\<close>

theorem soft_delete:
  "handleDeleteComment True user commentId now st =
     (st, [Backend (Update_post_comments_deleted_at now commentId user)]) \<and>
   handleDeleteComment False user commentId now st = (st, []) \<and>
   filter deletes_rows (snd (handleDeleteComment confirmed user commentId now st)) = [] \<and>
   (deleted_at c \<noteq> None \<longrightarrow>
      comment_body st c = Deleted_placeholder \<and> reply_body st c = Deleted_placeholder)"
  by (simp add: handleDeleteComment_def comment_body_def reply_body_def)

theorem soft_delete_witness:
  "deleted_at (CommentWithLikes (js ''c1'') (js ''secret'') 1 1 (js ''u1'') None (Some 7) None 0 False 0 (Some [])) \<noteq> None \<and>
   comment_body (ex_section []) (CommentWithLikes (js ''c1'') (js ''secret'') 1 1 (js ''u1'') None (Some 7) None 0 False 0 (Some [])) = Deleted_placeholder \<and>
   reply_body (ex_section []) (CommentWithLikes (js ''c1'') (js ''secret'') 1 1 (js ''u1'') None (Some 7) None 0 False 0 (Some [])) = Deleted_placeholder \<and>
   comment_body (ex_section []) (CommentWithLikes (js ''c1'') (js ''secret'') 1 1 (js ''u1'') None None None 0 False 0 (Some [])) = Content_text (js ''secret'')"
  using soft_delete [of None "js ''c1''" 8 "ex_section []" True
      "CommentWithLikes (js ''c1'') (js ''secret'') 1 1 (js ''u1'') None (Some 7) None 0 False 0 (Some [])"]
  by (simp add: comment_body_def ex_section_def)

text \<open>
  C2. The claim: while a like request is in flight, toggling again issues no request, for
  a post and for a comment. The comment's \<open>handleToggleLike\<close> has no flag: invoked a
  second time on the state the first invocation left, before anything has settled, it
  issues the same insert again.
\<close>

theorem comment_like_toggle_unguarded:
  "handleToggleLike (Some (js ''u1'')) (js ''c1'') False (ex_section []) =
     (ex_section [], [Backend (Insert_comment_likes (js ''c1'') (js ''u1''))]) \<and>
   handleToggleLike (Some (js ''u1'')) (js ''c1'') False
       (fst (handleToggleLike (Some (js ''u1'')) (js ''c1'') False (ex_section []))) =
     (ex_section [], [Backend (Insert_comment_likes (js ''c1'') (js ''u1''))])"
  by (simp add: handleToggleLike_def)

lemma handleLikeToggle_guard:
  "likingInProgress st \<Longrightarrow> handleLikeToggle post_id (Some uid) st = (st, [])"
  by (simp add: handleLikeToggle_def)

lemma handleLikeToggle_sets_flag:
  "\<not> likingInProgress st \<Longrightarrow> likingInProgress (fst (handleLikeToggle post_id (Some uid) st))"
  by (simp add: handleLikeToggle_def)

lemma handleLikeToggle_settled_clears_flag:
  "\<not> likingInProgress (fst (handleLikeToggle_settled wasLiked failed st))"
  by (simp add: handleLikeToggle_settled_def)

lemma with_replies_same: "replies c = Some rs \<Longrightarrow> with_replies rs c = c"
  by (cases c) simp

lemma map_toggle_reply_id:
  "cid \<notin> c_id ` set rs \<Longrightarrow> map (toggle_reply cid l) rs = rs"
  by (induction rs) (auto simp: toggle_reply_def)

lemma toggle_comment_id:
  assumes "c_id c \<noteq> cid" and "cid \<notin> set (case replies c of None \<Rightarrow> [] | Some rs \<Rightarrow> map c_id rs)"
  shows "toggle_comment cid l c = c"
proof (cases "replies c")
  case None
  with assms show ?thesis by (simp add: toggle_comment_def)
next
  case (Some rs)
  with assms have "map (toggle_reply cid l) rs = rs"
    by (intro map_toggle_reply_id) simp
  with Some assms show ?thesis
    by (cases rs) (simp_all add: toggle_comment_def with_replies_same)
qed

lemma toggled_comments_id:
  "cid \<notin> set (entry_ids cs) \<Longrightarrow> toggled_comments cid l cs = cs"
  unfolding toggled_comments_def
  by (induction cs) (auto simp: entry_ids_def toggle_comment_id)

lemma entry_ids_append: "entry_ids (xs @ ys) = entry_ids xs @ entry_ids ys"
  by (simp add: entry_ids_def)

lemma entry_ids_Cons:
  "entry_ids (c # cs) =
     c_id c # (case replies c of None \<Rightarrow> [] | Some rs \<Rightarrow> map c_id rs) @ entry_ids cs"
  by (simp add: entry_ids_def)

lemma toggled_comments_top:
  assumes "distinct (entry_ids (before @ c # after))"
  shows "toggled_comments (c_id c) (isLiked c) (before @ c # after) = before @ like_flipped c # after"
proof -
  from assms have "c_id c \<notin> set (entry_ids before)" "c_id c \<notin> set (entry_ids after)"
    by (auto simp: entry_ids_append entry_ids_Cons)
  then have "toggled_comments (c_id c) (isLiked c) before = before"
    "toggled_comments (c_id c) (isLiked c) after = after"
    by (simp_all add: toggled_comments_id)
  then show ?thesis
    by (simp add: toggled_comments_def toggle_comment_def like_flipped_def)
qed

lemma toggled_comments_reply:
  assumes "distinct (entry_ids (before @ c # after))"
    and "replies c = Some (rbefore @ r # rafter)"
  shows "toggled_comments (c_id r) (isLiked r) (before @ c # after) =
     before @ with_replies (rbefore @ like_flipped r # rafter) c # after"
proof -
  from assms have out: "c_id r \<notin> set (entry_ids before)" "c_id r \<notin> set (entry_ids after)"
    and top: "c_id c \<noteq> c_id r"
    and inner: "c_id r \<notin> c_id ` set rbefore" "c_id r \<notin> c_id ` set rafter"
    by (auto simp: entry_ids_append entry_ids_Cons)
  from out have "toggled_comments (c_id r) (isLiked r) before = before"
    "toggled_comments (c_id r) (isLiked r) after = after"
    by (simp_all add: toggled_comments_id)
  moreover from inner have "map (toggle_reply (c_id r) (isLiked r)) rbefore = rbefore"
    "map (toggle_reply (c_id r) (isLiked r)) rafter = rafter"
    by (simp_all add: map_toggle_reply_id)
  moreover have "toggle_reply (c_id r) (isLiked r) r = like_flipped r"
    by (simp add: toggle_reply_def like_flipped_def)
  ultimately show ?thesis
    using top assms(2)
    by (cases rbefore) (simp_all add: toggled_comments_def toggle_comment_def)
qed

lemma nth_toggled_comments:
  "i < length cs \<Longrightarrow> toggled_comments cid liked cs ! i = toggle_comment cid liked (cs ! i)"
  by (simp add: toggled_comments_def)

lemma toggle_comment_match:
  "c_id c = cid \<Longrightarrow> toggle_comment cid liked c = like_toggled liked c"
  by (simp add: toggle_comment_def like_toggled_def)

lemma toggle_comment_other_fields:
  "c_id c \<noteq> cid \<Longrightarrow> with_replies [] (toggle_comment cid liked c) = with_replies [] c"
proof (cases c)
  case (CommentWithLikes i co ca ua u p d pr n l rc rs)
  assume "c_id c \<noteq> cid"
  with CommentWithLikes show ?thesis
    by (cases rs) (simp_all add: toggle_comment_def split: list.split)
qed

lemma toggle_comment_other_None:
  "c_id c \<noteq> cid \<Longrightarrow> replies c = None \<Longrightarrow> replies (toggle_comment cid liked c) = None"
  by (simp add: toggle_comment_def)

lemma replies_with_replies: "replies (with_replies rs c) = Some rs"
  by (cases c) simp

lemma toggle_comment_other_Some:
  "c_id c \<noteq> cid \<Longrightarrow> replies c = Some rs \<Longrightarrow>
   replies (toggle_comment cid liked c) = Some (map (toggle_reply cid liked) rs)"
  by (cases rs) (simp_all add: toggle_comment_def replies_with_replies)

lemma nth_map_toggle_reply:
  "j < length rs \<Longrightarrow>
   map (toggle_reply cid liked) rs ! j =
     (if c_id (rs ! j) = cid then like_toggled liked (rs ! j) else rs ! j)"
  by (simp add: toggle_reply_def like_toggled_def)

lemma like_toggled_fields:
  "isLiked (like_toggled liked e) = (\<not> liked)"
  "likesCount (like_toggled liked e) = (if liked then likesCount e - 1 else likesCount e + 1)"
  "with_like (isLiked e) (likesCount e) (like_toggled liked e) = e"
  "like_toggled (isLiked e) e = like_flipped e"
  by (cases e; simp add: like_toggled_def like_flipped_def)+

lemma settled_pointwise:
  assumes "i < length old"
  shows "(c_id (old ! i) = cid \<longrightarrow>
            toggled_comments cid liked old ! i = like_toggled liked (old ! i)) \<and>
         (c_id (old ! i) \<noteq> cid \<longrightarrow>
            with_replies [] (toggled_comments cid liked old ! i) = with_replies [] (old ! i) \<and>
            (replies (old ! i) = None \<longrightarrow> replies (toggled_comments cid liked old ! i) = None) \<and>
            (\<forall>rs. replies (old ! i) = Some rs \<longrightarrow>
               (\<exists>rs'. replies (toggled_comments cid liked old ! i) = Some rs' \<and>
                  length rs' = length rs \<and>
                  (\<forall>j < length rs.
                     rs' ! j = (if c_id (rs ! j) = cid then like_toggled liked (rs ! j)
                                else rs ! j)))))"
proof -
  have n: "toggled_comments cid liked old ! i = toggle_comment cid liked (old ! i)"
    using assms by (rule nth_toggled_comments)
  show ?thesis
    unfolding n
    by (auto simp: toggle_comment_match toggle_comment_other_fields toggle_comment_other_None
        toggle_comment_other_Some toggle_reply_def like_toggled_def)
qed

text \<open>
  C8, as amended. When a comment like request succeeds and the comment list is still the
  one the handler was created with, the handler issues nothing more and changes no other
  state; the list keeps its length, and entry by entry: a top-level comment with the
  toggled id is toggled with the given flag; a top-level comment with another id keeps
  all its fields but its replies, of which each one with the toggled id is toggled and
  each other one is unchanged. With the ids of all entries distinct and the handler
  invoked as rendered, with an entry's id and its flag, exactly that entry, a top-level
  comment or a reply, is replaced by the entry with its like flipped, and every other
  comment and reply is as it was. An id that no entry has changes nothing. Toggling
  sets the flag to the opposite of the given one, moves the counter by exactly one (down
  when the given flag was set, up otherwise) and changes no other field.
\<close>

theorem handleToggleLike_settled_frame:
  "(let old = comments st;
        result = handleToggleLike_settled cid liked old False st;
        new = comments (fst result)
    in snd result = [] \<and>
       fst result = st\<lparr>comments := new\<rparr> \<and>
       length new = length old \<and>
       (\<forall>i < length old.
          (c_id (old ! i) = cid \<longrightarrow> new ! i = like_toggled liked (old ! i)) \<and>
          (c_id (old ! i) \<noteq> cid \<longrightarrow>
             with_replies [] (new ! i) = with_replies [] (old ! i) \<and>
             (replies (old ! i) = None \<longrightarrow> replies (new ! i) = None) \<and>
             (\<forall>rs. replies (old ! i) = Some rs \<longrightarrow>
                (\<exists>rs'. replies (new ! i) = Some rs' \<and> length rs' = length rs \<and>
                   (\<forall>j < length rs.
                      rs' ! j = (if c_id (rs ! j) = cid then like_toggled liked (rs ! j)
                                 else rs ! j)))))) \<and>
       (distinct (entry_ids old) \<and> old = before @ c # after \<and> cid = c_id c \<and>
        liked = isLiked c \<longrightarrow>
          new = before @ like_flipped c # after) \<and>
       (distinct (entry_ids old) \<and> old = before @ c # after \<and>
        replies c = Some (rbefore @ r # rafter) \<and> cid = c_id r \<and> liked = isLiked r \<longrightarrow>
          new = before @ with_replies (rbefore @ like_flipped r # rafter) c # after) \<and>
       (cid \<notin> set (entry_ids old) \<longrightarrow> new = old)) \<and>
   isLiked (like_toggled liked e) = (\<not> liked) \<and>
   likesCount (like_toggled liked e) = (if liked then likesCount e - 1 else likesCount e + 1) \<and>
   \<bar>likesCount (like_toggled liked e) - likesCount e\<bar> = 1 \<and>
   with_like (isLiked e) (likesCount e) (like_toggled liked e) = e \<and>
   like_toggled (isLiked e) e = like_flipped e"
proof -
  let ?old = "comments st"
  let ?new = "toggled_comments cid liked ?old"
  have res: "handleToggleLike_settled cid liked ?old False st = (st\<lparr>comments := ?new\<rparr>, [])"
    by (simp add: handleToggleLike_settled_def)
  have len: "length ?new = length ?old"
    by (simp add: toggled_comments_def)
  have point: "\<forall>i < length ?old.
          (c_id (?old ! i) = cid \<longrightarrow> ?new ! i = like_toggled liked (?old ! i)) \<and>
          (c_id (?old ! i) \<noteq> cid \<longrightarrow>
             with_replies [] (?new ! i) = with_replies [] (?old ! i) \<and>
             (replies (?old ! i) = None \<longrightarrow> replies (?new ! i) = None) \<and>
             (\<forall>rs. replies (?old ! i) = Some rs \<longrightarrow>
                (\<exists>rs'. replies (?new ! i) = Some rs' \<and> length rs' = length rs \<and>
                   (\<forall>j < length rs.
                      rs' ! j = (if c_id (rs ! j) = cid then like_toggled liked (rs ! j)
                                 else rs ! j)))))"
    using settled_pointwise [of _ ?old cid liked] by blast
  have top: "distinct (entry_ids ?old) \<and> ?old = before @ c # after \<and> cid = c_id c \<and>
        liked = isLiked c \<longrightarrow> ?new = before @ like_flipped c # after"
    using toggled_comments_top [of before c after] by auto
  have reply: "distinct (entry_ids ?old) \<and> ?old = before @ c # after \<and>
        replies c = Some (rbefore @ r # rafter) \<and> cid = c_id r \<and> liked = isLiked r \<longrightarrow>
          ?new = before @ with_replies (rbefore @ like_flipped r # rafter) c # after"
    using toggled_comments_reply [of before c after rbefore r rafter] by auto
  have none: "cid \<notin> set (entry_ids ?old) \<longrightarrow> ?new = ?old"
    by (simp add: toggled_comments_id)
  have one: "\<bar>likesCount (like_toggled liked e) - likesCount e\<bar> = 1"
    by (simp add: like_toggled_fields)
  have f: "isLiked (like_toggled liked e) = (\<not> liked)"
    "likesCount (like_toggled liked e) = (if liked then likesCount e - 1 else likesCount e + 1)"
    "with_like (isLiked e) (likesCount e) (like_toggled liked e) = e"
    "like_toggled (isLiked e) e = like_flipped e"
    by (rule like_toggled_fields)+
  have sel: "comments (st\<lparr>comments := ?new\<rparr>) = ?new"
    by simp
  show ?thesis
    unfolding Let_def res fst_conv snd_conv sel
    using len point top reply none one f
    by (intro conjI) (rule refl | assumption)+
qed

theorem handleToggleLike_settled_frame_witness:
  "distinct (entry_ids (comments (ex_comments_state ex_comments))) \<and>
   comments (ex_comments_state ex_comments) = [ex_comment1] @ ex_comment2 # [] \<and>
   replies ex_comment2 = Some ([ex_reply1] @ ex_reply2 # []) \<and>
   js ''zz'' \<notin> set (entry_ids (comments (ex_comments_state ex_comments))) \<and>
   comments (fst (handleToggleLike_settled (js ''c2'') False ex_comments False
                    (ex_comments_state ex_comments))) =
     [ex_comment1,
      CommentWithLikes (js ''c2'') (js ''world'') 2 2 (js ''u2'') None None None 1 True 2
        (Some [ex_reply1, ex_reply2])] \<and>
   comments (fst (handleToggleLike_settled (js ''r2'') True ex_comments False
                    (ex_comments_state ex_comments))) =
     [ex_comment1,
      CommentWithLikes (js ''c2'') (js ''world'') 2 2 (js ''u2'') None None None 0 False 2
        (Some [ex_reply1,
          CommentWithLikes (js ''r2'') (js ''second'') 11 11 (js ''u1'') (Some (js ''c2''))
            None None 2 False 0 (Some [])])] \<and>
   comments (fst (handleToggleLike_settled (js ''zz'') True ex_comments False
                    (ex_comments_state ex_comments))) = ex_comments"
proof -
  have st: "comments (ex_comments_state ex_comments) = ex_comments"
    by (simp add: ex_comments_state_def)
  have d: "distinct (entry_ids ex_comments)"
    by (simp add: entry_ids_def ex_comments_def ex_comment1_def ex_comment2_def ex_reply1_def
        ex_reply2_def js_def)
  have shape: "ex_comments = [ex_comment1] @ ex_comment2 # []"
    by (simp add: ex_comments_def)
  have rs: "replies ex_comment2 = Some ([ex_reply1] @ ex_reply2 # [])"
    by (simp add: ex_comment2_def)
  have zz: "js ''zz'' \<notin> set (entry_ids ex_comments)"
    by (simp add: entry_ids_def ex_comments_def ex_comment1_def ex_comment2_def ex_reply1_def
        ex_reply2_def js_def)
  have top: "comments (fst (handleToggleLike_settled (js ''c2'') False ex_comments False
                    (ex_comments_state ex_comments))) = [ex_comment1] @ like_flipped ex_comment2 # []"
    using handleToggleLike_settled_frame [where st = "ex_comments_state ex_comments"
        and cid = "js ''c2''" and liked = False and before = "[ex_comment1]" and c = ex_comment2
        and after = "[]"] d shape
    by (simp add: Let_def st ex_comment2_def)
  have reply: "comments (fst (handleToggleLike_settled (js ''r2'') True ex_comments False
                    (ex_comments_state ex_comments))) =
       [ex_comment1] @ with_replies ([ex_reply1] @ like_flipped ex_reply2 # []) ex_comment2 # []"
    using handleToggleLike_settled_frame [where st = "ex_comments_state ex_comments"
        and cid = "js ''r2''" and liked = True and before = "[ex_comment1]" and c = ex_comment2
        and after = "[]" and rbefore = "[ex_reply1]" and r = ex_reply2 and rafter = "[]"] d shape rs
    by (simp add: Let_def st ex_reply2_def)
  have other: "comments (fst (handleToggleLike_settled (js ''zz'') True ex_comments False
                    (ex_comments_state ex_comments))) = ex_comments"
    using handleToggleLike_settled_frame [where st = "ex_comments_state ex_comments"
        and cid = "js ''zz''" and liked = True] zz
    by (simp add: Let_def st)
  from d shape rs zz top reply other show ?thesis
    by (simp add: st like_flipped_def ex_comment2_def ex_reply2_def)
qed

text \<open>
  C8 as stated, that exactly one entry changes and every other one is left unchanged,
  fails in two ways. In a list that holds the same comment twice, both entries change.
  And the update maps the list of the render the handler was created in: when two like
  requests started in one render both succeed, the second update puts the entry that the
  first one had toggled back to what it was.
\<close>

theorem handleToggleLike_settled_counterexample:
  "comments (fst (handleToggleLike_settled (js ''c1'') True ex_overlapping_pages False
                    (ex_comments_state ex_overlapping_pages))) =
     [like_flipped ex_comment1, ex_comment2, like_flipped ex_comment1] \<and>
   like_flipped ex_comment1 \<noteq> ex_comment1 \<and>
   comments (fst (handleToggleLike_settled (js ''c2'') False ex_comments False
                    (ex_comments_state ex_comments))) =
     [ex_comment1, like_flipped ex_comment2] \<and>
   comments (fst (handleToggleLike_settled (js ''c1'') True ex_comments False
              (fst (handleToggleLike_settled (js ''c2'') False ex_comments False
                      (ex_comments_state ex_comments))))) =
     [like_flipped ex_comment1, ex_comment2] \<and>
   like_flipped ex_comment2 \<noteq> ex_comment2"
  by (simp add: handleToggleLike_settled_def toggled_comments_def toggle_comment_def
      toggle_reply_def like_flipped_def ex_comments_state_def ex_comments_def
      ex_overlapping_pages_def ex_comment1_def ex_comment2_def ex_reply1_def ex_reply2_def js_def)

section \<open>Properties of HomePage\<close>

lemma mset_insert_sorted: "mset (insert_sorted cmp x ys) = add_mset x (mset ys)"
  by (induction ys) auto

lemma mset_Array_sort: "mset (Array_sort cmp xs) = mset xs"
  unfolding Array_sort_def by (induction xs) (auto simp: mset_insert_sorted)

lemma set_insert_sorted: "set (insert_sorted cmp x ys) = insert x (set ys)"
  by (induction ys) auto

lemma sorted_insert_sorted:
  "sorted_wrt (\<lambda>a b. score b \<le> score a) ys \<Longrightarrow>
   sorted_wrt (\<lambda>a b. score b \<le> score a) (insert_sorted by_score_descending x ys)"
  by (induction ys) (auto simp: set_insert_sorted by_score_descending_def)

lemma sorted_Array_sort:
  "sorted_wrt (\<lambda>a b. score b \<le> score a) (Array_sort by_score_descending xs)"
  unfolding Array_sort_def by (induction xs) (auto simp: sorted_insert_sorted)

text \<open>
  C6. For every page number \<open>p\<close>, \<open>fetchPosts\<close> asks for the public posts in the
  range from \<open>12 * p\<close> to \<open>12 * p + 11\<close>. With the sort option \<open>popular\<close> the
  fetched page is a permutation of the fetched rows with their counts, in non-increasing
  order of \<open>likes_count + comments_count\<close>. When the query has not failed, the page
  replaces or extends the list, and \<open>hasMore\<close> is true exactly when the query reported
  a total count greater than \<open>12 * p + 12\<close>.
\<close>

theorem fetchPosts_paging:
  "q_is_public (snd (fetchPosts p sortOption st)) \<and>
   q_range_from (snd (fetchPosts p sortOption st)) = 12 * p \<and>
   q_range_to (snd (fetchPosts p sortOption st)) = 12 * p + 11 \<and>
   sorted_wrt (\<lambda>a b. likes_count b + comments_count b \<le> likes_count a + comments_count a)
     (fetched_page Popular r likeCounts commentCounts) \<and>
   mset (fetched_page Popular r likeCounts commentCounts) =
     mset (postsWithCounts likeCounts commentCounts
            (case data r of None \<Rightarrow> [] | Some rows \<Rightarrow> rows)) \<and>
   (\<not> query_failed r \<longrightarrow>
      posts (fetchPosts_settled p sortOption reset r likeCounts commentCounts st) =
        (if reset then [] else posts st) @ fetched_page sortOption r likeCounts commentCounts \<and>
      (hasMore (fetchPosts_settled p sortOption reset r likeCounts commentCounts st) \<longleftrightarrow>
         (\<exists>c. total_count r = Some c \<and> 12 * p + 12 < c)))"
proof -
  have query: "q_is_public (snd (fetchPosts p sortOption st)) \<and>
      q_range_from (snd (fetchPosts p sortOption st)) = 12 * p \<and>
      q_range_to (snd (fetchPosts p sortOption st)) = 12 * p + 11"
    by (simp add: fetchPosts_def fetchPosts_query_def POSTS_PER_PAGE_def Let_def)
  have sorted: "sorted_wrt
      (\<lambda>a b. likes_count b + comments_count b \<le> likes_count a + comments_count a)
      (fetched_page Popular r likeCounts commentCounts)"
    using sorted_Array_sort by (simp add: fetched_page_def score_def)
  have perm: "mset (fetched_page Popular r likeCounts commentCounts) =
      mset (postsWithCounts likeCounts commentCounts
             (case data r of None \<Rightarrow> [] | Some rows \<Rightarrow> rows))"
    by (simp add: fetched_page_def mset_Array_sort)
  have settled: "\<not> query_failed r \<longrightarrow>
      posts (fetchPosts_settled p sortOption reset r likeCounts commentCounts st) =
        (if reset then [] else posts st) @ fetched_page sortOption r likeCounts commentCounts \<and>
      (hasMore (fetchPosts_settled p sortOption reset r likeCounts commentCounts st) \<longleftrightarrow>
         (\<exists>c. total_count r = Some c \<and> 12 * p + 12 < c))"
    by (auto simp: fetchPosts_settled_def POSTS_PER_PAGE_def split: option.splits)
  from query sorted perm settled show ?thesis by blast
qed

theorem fetchPosts_paging_witness:
  "\<not> query_failed ex_result \<and>
   map (row_id \<circ> row) (posts (fetchPosts_settled 1 Popular False ex_result ex_likeCounts ex_commentCounts ex_home)) =
     [js ''b'', js ''c'', js ''a''] \<and>
   hasMore (fetchPosts_settled 1 Popular False ex_result ex_likeCounts ex_commentCounts ex_home) \<and>
   \<not> hasMore (fetchPosts_settled 2 Popular False ex_result ex_likeCounts ex_commentCounts ex_home)"
  using fetchPosts_paging [of 1 Popular ex_home ex_result ex_likeCounts ex_commentCounts False]
    fetchPosts_paging [of 2 Popular ex_home ex_result ex_likeCounts ex_commentCounts False]
  by (simp add: ex_result_def ex_home_def fetched_page_def postsWithCounts_def Array_sort_def
      by_score_descending_def score_def or_zero_def ex_likeCounts_def ex_commentCounts_def
      ex_row_def js_def)

section \<open>Properties of SearchPage\<close>

text \<open>
  C10. The claim: \<open>highlightText\<close> returns for every text and every query, also one
  with metacharacters. The query is put into the pattern as typed: for the query \<open>(\<close>
  the pattern is \<open>(()\<close>, and with a constructor that rejects it, as ECMAScript's does
  (unterminated group), \<open>highlightText\<close> throws the \<open>SyntaxError\<close>.
\<close>

theorem highlightText_throws:
  "new_RegExp E (js ''(()'') (js ''gi'') = Inl SyntaxError \<Longrightarrow>
   highlightText E (js ''f(x)'') (js ''('') = Inl SyntaxError"
  by (simp add: highlightText_def js_def trim_def isWhiteSpace_def)

theorem highlightText_throws_witness:
  "new_RegExp group_checking_engine (js ''(()'') (js ''gi'') = Inl SyntaxError \<and>
   highlightText group_checking_engine (js ''f(x)'') (js ''('') = Inl SyntaxError"
proof -
  have h: "new_RegExp group_checking_engine (js ''(()'') (js ''gi'') = Inl SyntaxError"
    by (simp add: group_checking_engine_def js_def)
  from h highlightText_throws [OF h] show ?thesis by simp
qed


end
